theory Spec2Isabelle
  imports Main "HOL-Library.Word"
begin

section \<open>The search-and-render controller of the S.E.A front end\<close>

text \<open>
  The repository holds one behavioural unit, the React component \<open>App\<close>: five pieces
  of view state, the asynchronous handler \<open>handleSearch\<close>, the derived chart data
  \<open>sentimentData\<close> and the JSX that renders the state.  The handler is an
  \<^verbatim>\<open>async\<close> function: it runs synchronously up to each \<^verbatim>\<open>await\<close>, is suspended there,
  and is resumed by the event loop when the awaited promise settles.  The model keeps that
  shape: each stretch of code between two suspension points is a function that returns
  the actions it performs, in program order, and the point at which it suspends.
\<close>

subsection \<open>JavaScript strings\<close>

text \<open>
  A JavaScript string is a finite sequence of 16-bit code units.  String literals of the
  source are ASCII; \<open>lit\<close> embeds them.
\<close>

type_synonym js_string = "16 word list"

definition lit :: "string \<Rightarrow> js_string" where
  "lit s = map of_char s"

text \<open>
  \<^verbatim>\<open>String.prototype.trim\<close> removes leading and trailing code units that are WhiteSpace
  or LineTerminator in ECMAScript: TAB, LF, VT, FF, CR, SP, NBSP, the other space
  separators of Unicode (category Zs), LS, PS and the byte order mark.
\<close>

definition whiteSpace :: "16 word list" where
  "whiteSpace =
     [0x0009, 0x000A, 0x000B, 0x000C, 0x000D, 0x0020, 0x00A0, 0x1680,
      0x2000, 0x2001, 0x2002, 0x2003, 0x2004, 0x2005, 0x2006, 0x2007,
      0x2008, 0x2009, 0x200A, 0x2028, 0x2029, 0x202F, 0x205F, 0x3000, 0xFEFF]"

definition isWhiteSpace :: "16 word \<Rightarrow> bool" where
  "isWhiteSpace c \<longleftrightarrow> c \<in> set whiteSpace"

definition trim :: "js_string \<Rightarrow> js_string" where
  "trim s = rev (dropWhile isWhiteSpace (rev (dropWhile isWhiteSpace s)))"

text \<open>A string is truthy when it is not empty.\<close>

definition truthy :: "js_string \<Rightarrow> bool" where
  "truthy s \<longleftrightarrow> s \<noteq> []"

subsection \<open>\<^verbatim>\<open>encodeURIComponent\<close>\<close>

text \<open>
  The built-in follows the abstract operation Encode of ECMAScript: a code unit of the
  unescaped set (letters, digits and \<^verbatim>\<open>-_.!~*'()\<close>) is copied; any other code point is
  written as the percent-escaped octets of its UTF-8 encoding; an unpaired surrogate
  raises URIError.
\<close>

definition uriUnescaped :: "16 word list" where
  "uriUnescaped =
     lit ''ABCDEFGHIJKLMNOPQRSTUVWXYZabcdefghijklmnopqrstuvwxyz0123456789-_.!~*()'' @ [0x27]"

definition isLeadSurrogate :: "16 word \<Rightarrow> bool" where
  "isLeadSurrogate c \<longleftrightarrow> 0xD800 \<le> c \<and> c \<le> 0xDBFF"

definition isTrailSurrogate :: "16 word \<Rightarrow> bool" where
  "isTrailSurrogate c \<longleftrightarrow> 0xDC00 \<le> c \<and> c \<le> 0xDFFF"

definition surrogatePair :: "16 word \<Rightarrow> 16 word \<Rightarrow> nat" where
  "surrogatePair lead trail =
     (unat lead - 0xD800) * 0x400 + (unat trail - 0xDC00) + 0x10000"

definition utf8 :: "nat \<Rightarrow> nat list" where
  "utf8 cp =
     (if cp < 0x80 then [cp]
      else if cp < 0x800 then [0xC0 + cp div 0x40, 0x80 + cp mod 0x40]
      else if cp < 0x10000 then
        [0xE0 + cp div 0x1000, 0x80 + cp div 0x40 mod 0x40, 0x80 + cp mod 0x40]
      else
        [0xF0 + cp div 0x40000, 0x80 + cp div 0x1000 mod 0x40,
         0x80 + cp div 0x40 mod 0x40, 0x80 + cp mod 0x40])"

definition hexDigit :: "nat \<Rightarrow> 16 word" where
  "hexDigit n = lit ''0123456789ABCDEF'' ! (n mod 16)"

definition percentEscape :: "nat list \<Rightarrow> js_string" where
  "percentEscape octets = concat (map (\<lambda>b. [0x25, hexDigit (b div 16), hexDigit b]) octets)"

datatype uri_error = URIError

fun encodeURIComponent :: "js_string \<Rightarrow> uri_error + js_string" where
  "encodeURIComponent [] = Inr []"
| "encodeURIComponent (c # cs) =
     (if c \<in> set uriUnescaped then
        (case encodeURIComponent cs of Inl e \<Rightarrow> Inl e | Inr r \<Rightarrow> Inr (c # r))
      else if isLeadSurrogate c then
        (case cs of
           [] \<Rightarrow> Inl URIError
         | d # ds \<Rightarrow>
             if isTrailSurrogate d then
               (case encodeURIComponent ds of
                  Inl e \<Rightarrow> Inl e
                | Inr r \<Rightarrow> Inr (percentEscape (utf8 (surrogatePair c d)) @ r))
             else Inl URIError)
      else if isTrailSurrogate c then Inl URIError
      else
        (case encodeURIComponent cs of
           Inl e \<Rightarrow> Inl e
         | Inr r \<Rightarrow> Inr (percentEscape (utf8 (unat c)) @ r)))"

text \<open>\<^verbatim>\<open>String.prototype.isWellFormed\<close>: no unpaired surrogate.\<close>

fun isWellFormed :: "js_string \<Rightarrow> bool" where
  "isWellFormed [] = True"
| "isWellFormed (c # cs) =
     (if isLeadSurrogate c then
        (case cs of [] \<Rightarrow> False | d # ds \<Rightarrow> isTrailSurrogate d \<and> isWellFormed ds)
      else \<not> isTrailSurrogate c \<and> isWellFormed cs)"

subsection \<open>The API response and the view state\<close>

record article =
  title :: js_string
  url :: js_string
  article_text :: js_string
  gemini_summary :: js_string

record mentions =
  positive :: "js_string list"
  neutral :: "js_string list"
  negative :: "js_string list"

record api_response =
  name :: js_string
  articles :: "article list"
  mentions :: mentions

text \<open>The five \<^verbatim>\<open>useState\<close> cells of \<open>App\<close>; \<^verbatim>\<open>null\<close> is \<open>None\<close>.\<close>

record view =
  searchQuery :: js_string
  isLoading :: bool
  data :: "api_response option"
  error :: "js_string option"
  loadingPhase :: js_string

definition initial_view :: view where
  "initial_view =
     \<lparr>searchQuery = [], isLoading = False, data = None, error = None, loadingPhase = []\<rparr>"

subsection \<open>Actions of the handler\<close>

text \<open>
  What \<open>handleSearch\<close> does to the outside, in program order: calls of the four state
  setters it uses, timers it starts, the request it sends and the reading of the
  response body.
\<close>

datatype action =
    SetIsLoading bool
  | SetData "api_response option"
  | SetError "js_string option"
  | SetLoadingPhase js_string
  | SetTimeout nat
  | Fetch js_string
  | ReadJson

fun apply_action :: "view \<Rightarrow> action \<Rightarrow> view" where
  "apply_action v (SetIsLoading b) = v\<lparr>isLoading := b\<rparr>"
| "apply_action v (SetData d) = v\<lparr>data := d\<rparr>"
| "apply_action v (SetError e) = v\<lparr>error := e\<rparr>"
| "apply_action v (SetLoadingPhase p) = v\<lparr>loadingPhase := p\<rparr>"
| "apply_action v (SetTimeout ms) = v"
| "apply_action v (Fetch u) = v"
| "apply_action v ReadJson = v"

definition exec :: "view \<Rightarrow> action list \<Rightarrow> view" where
  "exec v as = foldl apply_action v as"

text \<open>
  A value that reaches the \<^verbatim>\<open>catch\<close> clause is either an \<^verbatim>\<open>Error\<close> object, with its
  message, or anything else.  The message of the URIError that \<^verbatim>\<open>encodeURIComponent\<close>
  raises is chosen by the JavaScript engine; the model takes it as a parameter.
\<close>

datatype js_thrown = ErrorObj js_string | NonError

text \<open>A response of \<^verbatim>\<open>fetch\<close>; \<^verbatim>\<open>response.ok\<close> is true for the statuses 200 to 299.\<close>

record response =
  status :: nat

definition ok :: "response \<Rightarrow> bool" where
  "ok r \<longleftrightarrow> 200 \<le> status r \<and> status r \<le> 299"

text \<open>
  The suspension points of \<open>handleSearch\<close>, and what the event loop resumes it with.
  \<^verbatim>\<open>response.json()\<close> resolves with a value of type \<^verbatim>\<open>any\<close>, which \<open>setData\<close> stores as it
  is: the parsed value is \<^verbatim>\<open>null\<close> (\<open>None\<close>) or a value of the declared shape
  \<^verbatim>\<open>ApiResponse\<close>, the two kinds of value that the type of \<open>data\<close> admits.
\<close>

datatype await = AwaitTimer1 | AwaitTimer2 | AwaitFetch | AwaitJson

datatype settled =
    TimerFired
  | FetchSettled "js_thrown + response"
  | JsonSettled "js_thrown + api_response option"

subsection \<open>\<open>handleSearch\<close>\<close>

text \<open>\<^verbatim>\<open>err instanceof Error ? err.message : 'An unknown error occurred'\<close>\<close>

definition caught_message :: "js_thrown \<Rightarrow> js_string" where
  "caught_message err =
     (case err of ErrorObj message \<Rightarrow> message | NonError \<Rightarrow> lit ''An unknown error occurred'')"

definition catch_block :: "js_thrown \<Rightarrow> action list" where
  "catch_block err = [SetError (Some (caught_message err))]"

definition finally_block :: "action list" where
  "finally_block = [SetIsLoading False, SetLoadingPhase (lit [])]"

text \<open>
  The call itself: the guard, the three resets, the first label and the first timer.
  The argument is the \<open>searchQuery\<close> of the render that created the handler; the closure
  keeps it for the whole run.
\<close>

definition handleSearch :: "js_string \<Rightarrow> action list \<times> await option" where
  "handleSearch q =
     (if \<not> truthy (trim q) then ([], None)
      else
        ([SetIsLoading True, SetData None, SetError None,
          SetLoadingPhase (lit ''Searching social platforms...''),
          SetTimeout 1500],
         Some AwaitTimer1))"

text \<open>
  The continuation after each \<^verbatim>\<open>await\<close>.  A settlement that does not belong to the
  suspension point resumes nothing (\<open>None\<close>).  A continuation that ends the run has
  gone through \<^verbatim>\<open>finally\<close> and returns no further suspension point.
\<close>

fun resume :: "js_string \<Rightarrow> js_string \<Rightarrow> await \<Rightarrow> settled \<Rightarrow> (action list \<times> await option) option" where
  "resume uriMessage q AwaitTimer1 TimerFired =
     Some ([SetLoadingPhase (lit ''Scraping and parsing results...''), SetTimeout 2000],
           Some AwaitTimer2)"
| "resume uriMessage q AwaitTimer2 TimerFired =
     Some (case encodeURIComponent q of
             Inl URIError \<Rightarrow>
               (SetLoadingPhase (lit ''Analyzing sentiment and synthesizing data...'')
                  # catch_block (ErrorObj uriMessage) @ finally_block,
                None)
           | Inr topic \<Rightarrow>
               ([SetLoadingPhase (lit ''Analyzing sentiment and synthesizing data...''),
                 Fetch (lit ''/api/scrape?topic='' @ topic)],
                Some AwaitFetch))"
| "resume uriMessage q AwaitFetch (FetchSettled (Inl err)) =
     Some (catch_block err @ finally_block, None)"
| "resume uriMessage q AwaitFetch (FetchSettled (Inr r)) =
     Some (if \<not> ok r then
             (catch_block (ErrorObj (lit ''Network response was not ok'')) @ finally_block,
              None)
           else ([ReadJson], Some AwaitJson))"
| "resume uriMessage q AwaitJson (JsonSettled (Inl err)) =
     Some (catch_block err @ finally_block, None)"
| "resume uriMessage q AwaitJson (JsonSettled (Inr result)) =
     Some (SetData result # finally_block, None)"
| "resume uriMessage q a s = None"

text \<open>
  One run of \<open>handleSearch\<close> on its own, resumed with the given settlements in turn:
  the actions performed so far and the suspension point reached (\<open>None\<close> when the run
  has returned).
\<close>

fun drive :: "js_string \<Rightarrow> js_string \<Rightarrow> await option \<Rightarrow> settled list \<Rightarrow> action list \<times> await option" where
  "drive uriMessage q None ss = ([], None)"
| "drive uriMessage q (Some a) [] = ([], Some a)"
| "drive uriMessage q (Some a) (s # ss) =
     (case resume uriMessage q a s of
        None \<Rightarrow> ([], Some a)
      | Some (as, k) \<Rightarrow>
          (case drive uriMessage q k ss of (bs, k') \<Rightarrow> (as @ bs, k')))"

definition run :: "js_string \<Rightarrow> js_string \<Rightarrow> settled list \<Rightarrow> action list \<times> await option" where
  "run uriMessage q ss =
     (case handleSearch q of
        (as, k) \<Rightarrow> (case drive uriMessage q k ss of (bs, k') \<Rightarrow> (as @ bs, k')))"

text \<open>The settlements of a run in which both timers fire, the request settles with
  \<open>net\<close> and the body, if it is read, with \<open>body\<close>.\<close>

definition settlements :: "js_thrown + response \<Rightarrow> js_thrown + api_response option \<Rightarrow> settled list" where
  "settlements net body = [TimerFired, TimerFired, FetchSettled net, JsonSettled body]"

text \<open>The trace of such a run, and the view it leaves when it starts from \<open>v\<close>.\<close>

definition complete_run :: "js_string \<Rightarrow> js_string \<Rightarrow> js_thrown + response \<Rightarrow> js_thrown + api_response option \<Rightarrow> action list" where
  "complete_run uriMessage q net body = fst (run uriMessage q (settlements net body))"

definition final_view :: "view \<Rightarrow> js_string \<Rightarrow> js_string \<Rightarrow> js_thrown + response \<Rightarrow> js_thrown + api_response option \<Rightarrow> view" where
  "final_view v uriMessage q net body = exec v (complete_run uriMessage q net body)"

text \<open>Observations of a trace: the timers started, the URLs requested, the labels shown.
  \<^verbatim>\<open>fetch\<close> is called with a URL only, which is a GET request.\<close>

fun timers :: "action list \<Rightarrow> nat list" where
  "timers [] = []"
| "timers (SetTimeout ms # as) = ms # timers as"
| "timers (a # as) = timers as"

fun requests :: "action list \<Rightarrow> js_string list" where
  "requests [] = []"
| "requests (Fetch u # as) = u # requests as"
| "requests (a # as) = requests as"

fun labels :: "action list \<Rightarrow> js_string list" where
  "labels [] = []"
| "labels (SetLoadingPhase p # as) = p # labels as"
| "labels (a # as) = labels as"

subsection \<open>The page: events of the user and of the event loop\<close>

text \<open>
  The text input calls \<open>setSearchQuery\<close> on every change and \<open>handleSearch\<close> when the key
  pressed is Enter; the button calls \<open>handleSearch\<close> on a click and carries
  \<^verbatim>\<open>disabled={isLoading}\<close>, so a click while loading is not delivered.  Several runs
  of the handler can be suspended at once; each keeps the query it was called with.
\<close>

record sys =
  ui :: view
  runs :: "(js_string \<times> await option) list"
  trace :: "action list"

definition initial_sys :: sys where
  "initial_sys = \<lparr>ui = initial_view, runs = [], trace = []\<rparr>"

datatype event =
    Change js_string
  | KeyPress js_string
  | Click
  | Settle nat settled

definition submit_disabled :: "view \<Rightarrow> bool" where
  "submit_disabled v \<longleftrightarrow> isLoading v"

definition invoke :: "sys \<Rightarrow> sys" where
  "invoke s =
     (case handleSearch (searchQuery (ui s)) of
        (as, k) \<Rightarrow>
          \<lparr>ui = exec (ui s) as,
           runs = (case k of None \<Rightarrow> runs s | Some a \<Rightarrow> runs s @ [(searchQuery (ui s), Some a)]),
           trace = trace s @ as\<rparr>)"

fun step :: "js_string \<Rightarrow> sys \<Rightarrow> event \<Rightarrow> sys" where
  "step uriMessage s (Change text) = s\<lparr>ui := (ui s)\<lparr>searchQuery := text\<rparr>\<rparr>"
| "step uriMessage s (KeyPress key) = (if key = lit ''Enter'' then invoke s else s)"
| "step uriMessage s Click = (if submit_disabled (ui s) then s else invoke s)"
| "step uriMessage s (Settle i st) =
     (if i < length (runs s) then
        (case runs s ! i of
           (q, None) \<Rightarrow> s
         | (q, Some a) \<Rightarrow>
             (case resume uriMessage q a st of
                None \<Rightarrow> s
              | Some (as, k) \<Rightarrow>
                  \<lparr>ui = exec (ui s) as, runs = (runs s)[i := (q, k)], trace = trace s @ as\<rparr>))
      else s)"

definition in_flight :: "sys \<Rightarrow> (js_string \<times> await option) list" where
  "in_flight s = filter (\<lambda>r. snd r \<noteq> None) (runs s)"

subsection \<open>Rendering\<close>

record sentiment =
  name :: js_string
  count :: nat
  fill :: js_string

definition sentimentData :: "api_response option \<Rightarrow> sentiment list" where
  "sentimentData d =
     (case d of
        None \<Rightarrow> []
      | Some r \<Rightarrow>
          [\<lparr>name = lit ''Positive'', count = length (positive (mentions r)),
            fill = lit ''#4ade80''\<rparr>,
           \<lparr>name = lit ''Neutral'', count = length (neutral (mentions r)),
            fill = lit ''#94a3b8''\<rparr>,
           \<lparr>name = lit ''Negative'', count = length (negative (mentions r)),
            fill = lit ''#f87171''\<rparr>])"

text \<open>\<^verbatim>\<open>Array.prototype.slice(start, end)\<close> for indices that are not negative.\<close>

definition slice :: "nat \<Rightarrow> nat \<Rightarrow> 'a list \<Rightarrow> 'a list" where
  "slice start end xs =
     (let k = min start (length xs); final = min end (length xs)
      in take (final - k) (drop k xs))"

text \<open>\<^verbatim>\<open>s.split('\n')[0]\<close>: the part of \<open>s\<close> before its first line feed.\<close>

definition first_line :: "js_string \<Rightarrow> js_string" where
  "first_line s = takeWhile (\<lambda>c. c \<noteq> 0x0A) s"

text \<open>
  \<^verbatim>\<open>new URL(article.url).hostname\<close> is the work of the browser's URL parser, which
  raises TypeError on a string that is not an absolute URL.  The parser is a parameter:
  a function that returns the host name, or \<open>None\<close> where the constructor raises.
\<close>

datatype render_error = InvalidURL js_string

record article_card =
  href :: js_string
  heading :: js_string
  source_number :: nat
  summary :: js_string
  hostname :: js_string

fun article_cards :: "(js_string \<Rightarrow> js_string option) \<Rightarrow> nat \<Rightarrow> article list \<Rightarrow> render_error + article_card list" where
  "article_cards parse index [] = Inr []"
| "article_cards parse index (a # as) =
     (case parse (url a) of
        None \<Rightarrow> Inl (InvalidURL (url a))
      | Some h \<Rightarrow>
          (case article_cards parse (index + 1) as of
             Inl e \<Rightarrow> Inl e
           | Inr cs \<Rightarrow>
               Inr (\<lparr>href = url a, heading = title a, source_number = index + 1,
                     summary = first_line (gemini_summary a), hostname = h\<rparr> # cs)))"

record results_section =
  subject :: js_string
  sources_analyzed :: nat
  positive_mentions :: nat
  neutral_mentions :: nat
  negative_mentions :: nat
  chart :: "sentiment list"
  cards :: "article_card list"
  positive_quotes :: "js_string list"
  neutral_quotes :: "js_string list"
  negative_quotes :: "js_string list"

definition render_results :: "(js_string \<Rightarrow> js_string option) \<Rightarrow> api_response \<Rightarrow> render_error + results_section" where
  "render_results parse d =
     (case article_cards parse 0 (articles d) of
        Inl e \<Rightarrow> Inl e
      | Inr cs \<Rightarrow>
          Inr \<lparr>subject = api_response.name d,
               sources_analyzed = length (articles d),
               positive_mentions = length (positive (mentions d)),
               neutral_mentions = length (neutral (mentions d)),
               negative_mentions = length (negative (mentions d)),
               chart = sentimentData (Some d),
               cards = cs,
               positive_quotes = slice 1 10 (positive (mentions d)),
               neutral_quotes = slice 1 10 (neutral (mentions d)),
               negative_quotes = slice 1 10 (negative (mentions d))\<rparr>)"

text \<open>The page as a whole.  \<^verbatim>\<open>error && ...\<close> shows the banner for a message that is
  neither \<^verbatim>\<open>null\<close> nor empty.\<close>

record page =
  hero_collapsed :: bool
  input_value :: js_string
  button_disabled :: bool
  loading_label :: "js_string option"
  error_banner :: "js_string option"
  results :: "results_section option"

definition App :: "(js_string \<Rightarrow> js_string option) \<Rightarrow> view \<Rightarrow> render_error + page" where
  "App parse v =
     (case (case data v of
              None \<Rightarrow> Inr None
            | Some d \<Rightarrow> (case render_results parse d of Inl e \<Rightarrow> Inl e | Inr r \<Rightarrow> Inr (Some r))) of
        Inl e \<Rightarrow> Inl e
      | Inr res \<Rightarrow>
          Inr \<lparr>hero_collapsed = (data v \<noteq> None \<or> isLoading v),
               input_value = searchQuery v,
               button_disabled = submit_disabled v,
               loading_label = (if isLoading v then Some (loadingPhase v) else None),
               error_banner = (case error v of
                                 None \<Rightarrow> None
                               | Some message \<Rightarrow> if truthy message then Some message else None),
               results = res\<rparr>)"

subsection \<open>A property of traces\<close>

text \<open>\<open>always P v as\<close>: \<open>P\<close> holds of the view before, between and after the actions
  \<open>as\<close>, executed from \<open>v\<close>.\<close>

fun always :: "(view \<Rightarrow> bool) \<Rightarrow> view \<Rightarrow> action list \<Rightarrow> bool" where
  "always P v [] = P v"
| "always P v (a # as) = (P v \<and> always P (apply_action v a) as)"

definition exclusive :: "view \<Rightarrow> bool" where
  "exclusive v \<longleftrightarrow> data v = None \<or> error v = None"

subsection \<open>Example inputs\<close>

definition example_result :: api_response where
  "example_result =
     \<lparr>api_response.name = lit ''Ada'',
      articles =
        [\<lparr>title = lit ''Notes'', url = lit ''https://example.org/notes'',
          article_text = lit ''Long text'', gemini_summary = lit ''Summary''\<rparr>],
      mentions =
        \<lparr>positive = [lit ''great'', lit ''brilliant''], neutral = [lit ''fine''],
         negative = []\<rparr>\<rparr>"

definition empty_result :: api_response where
  "empty_result =
     \<lparr>api_response.name = lit ''Ada'', articles = [],
      mentions = \<lparr>positive = [], neutral = [], negative = []\<rparr>\<rparr>"

definition example_parse :: "js_string \<Rightarrow> js_string option" where
  "example_parse u = (if u = lit ''https://example.org/notes'' then Some (lit ''example.org'') else None)"

definition uri_malformed :: js_string where
  "uri_malformed = lit ''URI malformed''"

text \<open>A query of a space, a tab and a no-break space, typed into the fresh page.\<close>

definition blank_typed :: sys where
  "blank_typed = initial_sys\<lparr>ui := initial_view\<lparr>searchQuery := [0x20, 0x09, 0xA0]\<rparr>\<rparr>"

definition enter :: event where
  "enter = KeyPress (lit ''Enter'')"

text \<open>The page after the user has typed \<^verbatim>\<open>ada\<close> and pressed Enter once.\<close>

definition typed_and_submitted :: sys where
  "typed_and_submitted = foldl (step uri_malformed) initial_sys [Change (lit ''ada''), enter]"

text \<open>Enter pressed twice; the timers of the two runs fire in the order of their
  deadlines; the request of the first run fails, then the request of the second run
  succeeds.\<close>

definition overlapping_runs :: "event list" where
  "overlapping_runs =
     [Change (lit ''ada''), enter, enter,
      Settle 0 TimerFired, Settle 1 TimerFired, Settle 0 TimerFired, Settle 1 TimerFired,
      Settle 0 (FetchSettled (Inl (ErrorObj (lit ''Failed to fetch'')))),
      Settle 1 (FetchSettled (Inr \<lparr>status = 200\<rparr>)),
      Settle 1 (JsonSettled (Inr (Some example_result)))]"

section \<open>Properties\<close>

subsection \<open>Strings\<close>

lemma trim_empty_iff: "trim q = [] \<longleftrightarrow> (\<forall>c\<in>set q. isWhiteSpace c)"
proof
  assume "trim q = []"
  then have all: "\<forall>c\<in>set (dropWhile isWhiteSpace q). isWhiteSpace c"
    by (simp add: trim_def)
  have "dropWhile isWhiteSpace q = []"
  proof (rule ccontr)
    assume ne: "dropWhile isWhiteSpace q \<noteq> []"
    then have "\<not> isWhiteSpace (hd (dropWhile isWhiteSpace q))"
      by (rule hd_dropWhile)
    moreover have "hd (dropWhile isWhiteSpace q) \<in> set (dropWhile isWhiteSpace q)"
      using ne by simp
    ultimately show False using all by blast
  qed
  then show "\<forall>c\<in>set q. isWhiteSpace c"
    by simp
next
  assume "\<forall>c\<in>set q. isWhiteSpace c"
  then show "trim q = []"
    by (auto simp: trim_def dest: set_dropWhileD)
qed

lemma unescaped_not_surrogate:
  "c \<in> set uriUnescaped \<Longrightarrow> \<not> isLeadSurrogate c \<and> \<not> isTrailSurrogate c"
  by (auto simp: uriUnescaped_def lit_def isLeadSurrogate_def isTrailSurrogate_def)

text \<open>\<^verbatim>\<open>encodeURIComponent\<close> returns exactly on the well-formed strings.\<close>

lemma encode_wellformed: "isWellFormed q \<Longrightarrow> \<exists>t. encodeURIComponent q = Inr t"
proof (induction q rule: encodeURIComponent.induct)
  case 1
  then show ?case by simp
next
  case (2 c cs)
  show ?case
  proof (cases "c \<in> set uriUnescaped")
    case True
    with 2 unescaped_not_surrogate[OF True] show ?thesis by auto
  next
    case False
    show ?thesis
    proof (cases "isLeadSurrogate c")
      case True
      with 2 False show ?thesis by (cases cs) auto
    next
      case nl: False
      with 2 False show ?thesis by auto
    qed
  qed
qed

lemma encode_illformed: "\<not> isWellFormed q \<Longrightarrow> encodeURIComponent q = Inl URIError"
proof (induction q rule: encodeURIComponent.induct)
  case 1
  then show ?case by simp
next
  case (2 c cs)
  show ?case
  proof (cases "c \<in> set uriUnescaped")
    case True
    with 2 unescaped_not_surrogate[OF True] show ?thesis by auto
  next
    case False
    show ?thesis
    proof (cases "isLeadSurrogate c")
      case True
      with 2 False show ?thesis by (cases cs) auto
    next
      case nl: False
      with 2 False show ?thesis by auto
    qed
  qed
qed

lemma slice_nth: "slice b e xs = map ((!) xs) [min b (length xs)..<min e (length xs)]"
proof (rule sym, rule map_upt_eqI)
  show "length (slice b e xs) = min e (length xs) - min b (length xs)"
    by (auto simp: slice_def Let_def)
next
  fix i assume "i < length (slice b e xs)"
  then show "slice b e xs ! i = xs ! (min b (length xs) + i)"
    by (auto simp: slice_def Let_def)
qed

subsection \<open>Actions and the view\<close>

lemma apply_action_searchQuery: "searchQuery (apply_action v a) = searchQuery v"
  by (cases a) simp_all

lemma exec_searchQuery: "searchQuery (exec v as) = searchQuery v"
  unfolding exec_def by (induction as arbitrary: v) (simp_all add: apply_action_searchQuery)

lemma exec_append: "exec v (as @ bs) = exec (exec v as) bs"
  by (simp add: exec_def)

lemma exec_simps:
  "exec v [] = v"
  "exec v (a # as) = exec (apply_action v a) as"
  by (simp_all add: exec_def)

lemma caught_message_ErrorObj: "caught_message (ErrorObj message) = message"
  by (simp add: caught_message_def)

lemma caught_message_empty: "caught_message err = [] \<longleftrightarrow> err = ErrorObj []"
  by (cases err) (simp_all add: caught_message_def lit_def)

subsection \<open>One run of \<open>handleSearch\<close>\<close>

lemma handleSearch_truthy:
  "truthy (trim q) \<Longrightarrow>
   handleSearch q =
     ([SetIsLoading True, SetData None, SetError None,
       SetLoadingPhase (lit ''Searching social platforms...''), SetTimeout 1500],
      Some AwaitTimer1)"
  by (simp add: handleSearch_def)

lemma run_truthy:
  "truthy (trim q) \<Longrightarrow>
   run m q ss =
     (case drive m q (Some AwaitTimer1) ss of
        (bs, k) \<Rightarrow>
          ([SetIsLoading True, SetData None, SetError None,
            SetLoadingPhase (lit ''Searching social platforms...''), SetTimeout 1500] @ bs,
           k))"
  by (simp add: run_def handleSearch_truthy)

text \<open>The whole trace of a run whose awaited promises all settle.\<close>

lemma run_complete:
  assumes "truthy (trim q)"
  shows "run m q (settlements net body) =
     ([SetIsLoading True, SetData None, SetError None,
       SetLoadingPhase (lit ''Searching social platforms...''), SetTimeout 1500,
       SetLoadingPhase (lit ''Scraping and parsing results...''), SetTimeout 2000,
       SetLoadingPhase (lit ''Analyzing sentiment and synthesizing data...'')]
      @ (case encodeURIComponent q of
           Inl e \<Rightarrow> catch_block (ErrorObj m) @ finally_block
         | Inr topic \<Rightarrow>
             Fetch (lit ''/api/scrape?topic='' @ topic) #
             (case net of
                Inl err \<Rightarrow> catch_block err @ finally_block
              | Inr r \<Rightarrow>
                  if \<not> ok r then
                    catch_block (ErrorObj (lit ''Network response was not ok'')) @ finally_block
                  else
                    ReadJson #
                    (case body of
                       Inl err \<Rightarrow> catch_block err @ finally_block
                     | Inr result \<Rightarrow> SetData result # finally_block))),
      None)"
  using assms
  by (simp add: run_def handleSearch_truthy settlements_def
           split: sum.splits uri_error.splits)

lemma truthy_ada: "truthy (trim (lit ''ada''))"
  by (simp add: truthy_def trim_def lit_def isWhiteSpace_def whiteSpace_def)

lemma wellformed_ada: "isWellFormed (lit ''ada'')"
  by (simp add: lit_def isLeadSurrogate_def isTrailSurrogate_def)

lemma encode_ada: "encodeURIComponent (lit ''ada'') = Inr (lit ''ada'')"
  by (simp add: lit_def uriUnescaped_def)

lemma ok_200: "ok \<lparr>status = 200\<rparr>"
  by (simp add: ok_def)

lemma not_ok_404: "\<not> ok \<lparr>status = 404\<rparr>"
  by (simp add: ok_def)

lemma truthy_lone: "truthy (trim [0x61, 0xD800])"
  by (simp add: truthy_def trim_def isWhiteSpace_def whiteSpace_def)

lemma illformed_lone: "\<not> isWellFormed [0x61, 0xD800]"
  by (simp add: isLeadSurrogate_def isTrailSurrogate_def)

lemma encode_lone: "encodeURIComponent [0x61, 0xD800] = Inl URIError"
  by (simp add: uriUnescaped_def lit_def isLeadSurrogate_def)

lemma truthy_escaped: "truthy (trim [0x61, 0x20, 0xE9])"
  by (simp add: truthy_def trim_def isWhiteSpace_def whiteSpace_def)

lemma wellformed_escaped: "isWellFormed [0x61, 0x20, 0xE9]"
  by (simp add: isLeadSurrogate_def isTrailSurrogate_def)

lemma encode_escaped: "encodeURIComponent [0x61, 0x20, 0xE9] = Inr (lit ''a%20%C3%A9'')"
  by (simp add: uriUnescaped_def lit_def isLeadSurrogate_def isTrailSurrogate_def
        percentEscape_def utf8_def hexDigit_def)

lemma complete_run_eq:
  assumes "truthy (trim q)"
  shows "complete_run m q net body =
     [SetIsLoading True, SetData None, SetError None,
      SetLoadingPhase (lit ''Searching social platforms...''), SetTimeout 1500,
      SetLoadingPhase (lit ''Scraping and parsing results...''), SetTimeout 2000,
      SetLoadingPhase (lit ''Analyzing sentiment and synthesizing data...'')]
     @ (case encodeURIComponent q of
          Inl e \<Rightarrow> catch_block (ErrorObj m) @ finally_block
        | Inr topic \<Rightarrow>
            Fetch (lit ''/api/scrape?topic='' @ topic) #
            (case net of
               Inl err \<Rightarrow> catch_block err @ finally_block
             | Inr r \<Rightarrow>
                 if \<not> ok r then
                   catch_block (ErrorObj (lit ''Network response was not ok'')) @ finally_block
                 else
                   ReadJson #
                   (case body of
                      Inl err \<Rightarrow> catch_block err @ finally_block
                    | Inr result \<Rightarrow> SetData result # finally_block)))"
  by (simp add: complete_run_def run_complete[OF assms])

text \<open>
  Within one run that no other run overlaps, \<open>data\<close> and \<open>error\<close> are never both set
  once the resets at the start have been made.
\<close>

lemma single_run_exclusive:
  assumes "truthy (trim q)"
  shows "always exclusive (exec v (take 3 (complete_run m q net body)))
           (drop 3 (complete_run m q net body))"
  by (simp add: complete_run_eq[OF assms] exec_simps exclusive_def catch_block_def
        finally_block_def split: sum.splits)

subsection \<open>The claims about \<open>handleSearch\<close>\<close>

text \<open>
  C1.  When the query is empty or has only white space, calling \<open>handleSearch\<close> does
  nothing: it performs no action at all (no setter call, no timer, no request) and
  suspends nowhere, so pressing Enter or clicking the button leaves the whole page state,
  the list of runs and the trace as they were.
\<close>

theorem handleSearch_blank_noop:
  assumes "\<forall>c\<in>set (searchQuery (ui s)). isWhiteSpace c"
  shows "handleSearch (searchQuery (ui s)) = ([], None) \<and>
         run uriMessage (searchQuery (ui s)) ss = ([], None) \<and>
         step uriMessage s (KeyPress (lit ''Enter'')) = s \<and>
         step uriMessage s Click = s"
proof -
  from assms have hs: "handleSearch (searchQuery (ui s)) = ([], None)"
    by (simp add: handleSearch_def truthy_def trim_empty_iff)
  then have inv: "invoke s = s"
    by (simp add: invoke_def exec_def)
  from hs have "run uriMessage (searchQuery (ui s)) ss = ([], None)"
    by (simp add: run_def)
  with hs inv show ?thesis by simp
qed

theorem handleSearch_blank_noop_witness:
  "list_all isWhiteSpace (searchQuery (ui blank_typed)) \<and>
   handleSearch [0x20, 0x09, 0xA0] = ([], None) \<and>
   step uri_malformed blank_typed (KeyPress (lit ''Enter'')) = blank_typed \<and>
   step uri_malformed blank_typed Click = blank_typed"
proof -
  have q: "searchQuery (ui blank_typed) = [0x20, 0x09, 0xA0]"
    by (simp add: blank_typed_def)
  have h: "\<forall>c\<in>set (searchQuery (ui blank_typed)). isWhiteSpace c"
    by (simp add: q isWhiteSpace_def whiteSpace_def)
  from handleSearch_blank_noop[OF h, of uri_malformed "[]"] h q show ?thesis
    by (simp add: list_all_iff)
qed

text \<open>
  C2.  When the trimmed query is not empty, the first three actions of a run are
  \<open>setIsLoading(true)\<close>, \<open>setData(null)\<close> and \<open>setError(null)\<close>, before any timer or
  request; after them \<open>isLoading\<close> is true and \<open>data\<close> and \<open>error\<close> are null.  No
  action of the run, however far it gets, changes \<open>searchQuery\<close>.
\<close>

theorem handleSearch_resets_first:
  assumes "truthy (trim q)"
  shows "take 3 (fst (run uriMessage q ss)) = [SetIsLoading True, SetData None, SetError None] \<and>
         isLoading (exec v (take 3 (fst (run uriMessage q ss)))) \<and>
         data (exec v (take 3 (fst (run uriMessage q ss)))) = None \<and>
         error (exec v (take 3 (fst (run uriMessage q ss)))) = None \<and>
         searchQuery (exec v (fst (run uriMessage q ss))) = searchQuery v"
proof -
  have "take 3 (fst (run uriMessage q ss)) = [SetIsLoading True, SetData None, SetError None]"
    using assms by (simp add: run_truthy split: prod.splits)
  then show ?thesis
    by (simp add: exec_simps exec_searchQuery)
qed

theorem handleSearch_resets_first_witness:
  "truthy (trim (lit ''ada'')) \<and>
   take 3 (fst (run uri_malformed (lit ''ada'') [TimerFired])) =
     [SetIsLoading True, SetData None, SetError None] \<and>
   isLoading (exec initial_view (take 3 (fst (run uri_malformed (lit ''ada'') [TimerFired])))) \<and>
   searchQuery (exec (initial_view\<lparr>searchQuery := lit ''ada''\<rparr>)
     (fst (run uri_malformed (lit ''ada'') [TimerFired]))) = lit ''ada''"
  using handleSearch_resets_first[OF truthy_ada, of uri_malformed "[TimerFired]" initial_view]
    handleSearch_resets_first[OF truthy_ada, of uri_malformed "[TimerFired]"
      "initial_view\<lparr>searchQuery := lit ''ada''\<rparr>"]
    truthy_ada
  by simp

text \<open>
  C3, as amended.  When the request of a run is sent and is rejected with \<open>err\<close>, the run
  ends with \<open>error\<close> set to the message of \<open>err\<close> if it is an \<^verbatim>\<open>Error\<close> and to
  \<^verbatim>\<open>'An unknown error occurred'\<close> otherwise; that message is empty exactly when \<open>err\<close>
  is an \<^verbatim>\<open>Error\<close> with the empty message.  When the response has any status
  outside 200 to 299, \<open>error\<close> is \<^verbatim>\<open>'Network response was not ok'\<close>, which is not
  empty, whatever the status.  In both cases \<open>data\<close> stays null and \<open>isLoading\<close> ends
  false.
\<close>

theorem failed_request_sets_error:
  assumes "truthy (trim q)" and "isWellFormed q"
  shows "(net = Inl err \<longrightarrow>
            error (final_view v m q net body) = Some (caught_message err) \<and>
            data (final_view v m q net body) = None \<and>
            \<not> isLoading (final_view v m q net body)) \<and>
         (net = Inr r \<and> \<not> ok r \<longrightarrow>
            error (final_view v m q net body) = Some (lit ''Network response was not ok'') \<and>
            lit ''Network response was not ok'' \<noteq> [] \<and>
            data (final_view v m q net body) = None \<and>
            \<not> isLoading (final_view v m q net body)) \<and>
         (caught_message err = [] \<longleftrightarrow> err = ErrorObj [])"
proof -
  from assms(2) obtain t where t: "encodeURIComponent q = Inr t"
    using encode_wellformed by blast
  have ne: "lit ''Network response was not ok'' \<noteq> []"
    by (simp add: lit_def)
  show ?thesis
    using ne
    by (simp add: final_view_def complete_run_eq[OF assms(1)] t exec_simps catch_block_def
          finally_block_def caught_message_ErrorObj caught_message_empty)
qed

theorem failed_request_sets_error_witness:
  "truthy (trim (lit ''ada'')) \<and> isWellFormed (lit ''ada'') \<and>
   error (final_view initial_view uri_malformed (lit ''ada'')
            (Inl (ErrorObj (lit ''Failed to fetch''))) (Inl NonError)) =
     Some (lit ''Failed to fetch'') \<and>
   data (final_view initial_view uri_malformed (lit ''ada'')
            (Inl (ErrorObj (lit ''Failed to fetch''))) (Inl NonError)) = None \<and>
   \<not> ok \<lparr>status = 404\<rparr> \<and>
   error (final_view initial_view uri_malformed (lit ''ada'')
            (Inr \<lparr>status = 404\<rparr>) (Inl NonError)) =
     Some (lit ''Network response was not ok'') \<and>
   data (final_view initial_view uri_malformed (lit ''ada'')
            (Inr \<lparr>status = 404\<rparr>) (Inl NonError)) = None"
  using
    failed_request_sets_error[OF truthy_ada wellformed_ada, of
      "Inl (ErrorObj (lit ''Failed to fetch''))" "ErrorObj (lit ''Failed to fetch'')"
      initial_view uri_malformed "Inl NonError" "\<lparr>status = 404\<rparr>"]
    failed_request_sets_error[OF truthy_ada wellformed_ada, of
      "Inr \<lparr>status = 404\<rparr>" "ErrorObj (lit ''Failed to fetch'')"
      initial_view uri_malformed "Inl NonError" "\<lparr>status = 404\<rparr>"]
    truthy_ada wellformed_ada not_ok_404
  by (simp add: caught_message_ErrorObj)

text \<open>Against C3 as stated: a request rejected with an \<^verbatim>\<open>Error\<close> whose message is empty
  leaves \<open>error\<close> set to the empty string.\<close>

theorem rejected_with_empty_message:
  "error (final_view initial_view uri_malformed (lit ''ada'') (Inl (ErrorObj [])) (Inl NonError))
     = Some []"
  by (simp add: final_view_def complete_run_eq[OF truthy_ada] encode_ada exec_simps
        catch_block_def finally_block_def caught_message_ErrorObj)

text \<open>
  C5, as amended.  On a non-blank query the run shows three fixed labels in a fixed
  order, then clears the label.  It pauses 1500 ms after the first label and 2000 ms
  after the second; after the third label it starts no timer: the action that follows
  at once is the request when \<^verbatim>\<open>encodeURIComponent\<close> returns, and the \<open>setError\<close> of the
  \<^verbatim>\<open>catch\<close> clause when it raises URIError.
\<close>

theorem loading_phases_sequence:
  assumes "truthy (trim q)"
  shows "take 8 (complete_run m q net body) =
           [SetIsLoading True, SetData None, SetError None,
            SetLoadingPhase (lit ''Searching social platforms...''), SetTimeout 1500,
            SetLoadingPhase (lit ''Scraping and parsing results...''), SetTimeout 2000,
            SetLoadingPhase (lit ''Analyzing sentiment and synthesizing data...'')] \<and>
         complete_run m q net body ! 8 =
           (case encodeURIComponent q of
              Inl e \<Rightarrow> SetError (Some m)
            | Inr topic \<Rightarrow> Fetch (lit ''/api/scrape?topic='' @ topic)) \<and>
         timers (drop 8 (complete_run m q net body)) = [] \<and>
         timers (complete_run m q net body) = [1500, 2000] \<and>
         labels (complete_run m q net body) =
           [lit ''Searching social platforms...'', lit ''Scraping and parsing results...'',
            lit ''Analyzing sentiment and synthesizing data...'', []]"
proof -
  have "take 8 (complete_run m q net body) =
           [SetIsLoading True, SetData None, SetError None,
            SetLoadingPhase (lit ''Searching social platforms...''), SetTimeout 1500,
            SetLoadingPhase (lit ''Scraping and parsing results...''), SetTimeout 2000,
            SetLoadingPhase (lit ''Analyzing sentiment and synthesizing data...'')]"
    by (simp add: complete_run_eq[OF assms])
  moreover have "complete_run m q net body ! 8 =
           (case encodeURIComponent q of
              Inl e \<Rightarrow> SetError (Some m)
            | Inr topic \<Rightarrow> Fetch (lit ''/api/scrape?topic='' @ topic))"
    by (simp add: complete_run_eq[OF assms] nth_append catch_block_def
          caught_message_ErrorObj split: sum.splits)
  moreover have "timers (drop 8 (complete_run m q net body)) = [] \<and>
         timers (complete_run m q net body) = [1500, 2000] \<and>
         labels (complete_run m q net body) =
           [lit ''Searching social platforms...'', lit ''Scraping and parsing results...'',
            lit ''Analyzing sentiment and synthesizing data...'', []]"
    by (simp add: complete_run_eq[OF assms] catch_block_def finally_block_def lit_def[of "[]"]
          split: sum.splits)
  ultimately show ?thesis by (intro conjI) simp_all
qed

theorem loading_phases_sequence_witness:
  "truthy (trim (lit ''ada'')) \<and>
   complete_run uri_malformed (lit ''ada'') (Inr \<lparr>status = 200\<rparr>) (Inr (Some example_result)) ! 8
     = Fetch (lit ''/api/scrape?topic='' @ lit ''ada'') \<and>
   timers (complete_run uri_malformed (lit ''ada'') (Inr \<lparr>status = 200\<rparr>) (Inr (Some example_result)))
     = [1500, 2000] \<and>
   labels (complete_run uri_malformed (lit ''ada'') (Inr \<lparr>status = 200\<rparr>) (Inr (Some example_result))) =
     [lit ''Searching social platforms...'', lit ''Scraping and parsing results...'',
      lit ''Analyzing sentiment and synthesizing data...'', []] \<and>
   truthy (trim [0x61, 0xD800]) \<and>
   complete_run uri_malformed [0x61, 0xD800] (Inr \<lparr>status = 200\<rparr>) (Inr (Some example_result)) ! 8
     = SetError (Some uri_malformed) \<and>
   timers (complete_run uri_malformed [0x61, 0xD800] (Inr \<lparr>status = 200\<rparr>)
     (Inr (Some example_result))) = [1500, 2000]"
  using loading_phases_sequence[OF truthy_ada, of uri_malformed "Inr \<lparr>status = 200\<rparr>"
      "Inr (Some example_result)"]
    loading_phases_sequence[OF truthy_lone, of uri_malformed "Inr \<lparr>status = 200\<rparr>"
      "Inr (Some example_result)"]
    truthy_ada truthy_lone
  by (simp only: encode_ada encode_lone sum.case simp_thms)

text \<open>Against C5 as stated: in a successful run the action that follows the third label
  is the request, and the run starts two timers, not three.\<close>

theorem no_pause_after_third_label:
  "drop 7 (complete_run uri_malformed (lit ''ada'') (Inr \<lparr>status = 200\<rparr>) (Inr (Some example_result))) =
     [SetLoadingPhase (lit ''Analyzing sentiment and synthesizing data...''),
      Fetch (lit ''/api/scrape?topic='' @ lit ''ada''), ReadJson,
      SetData (Some example_result), SetIsLoading False, SetLoadingPhase []] \<and>
   length (timers (complete_run uri_malformed (lit ''ada'') (Inr \<lparr>status = 200\<rparr>)
      (Inr (Some example_result)))) = 2"
  by (simp add: complete_run_eq[OF truthy_ada] encode_ada ok_200 finally_block_def
        lit_def[of "[]"])

text \<open>
  C6, as amended.  On a non-blank query that is well formed (no unpaired surrogate),
  \<^verbatim>\<open>encodeURIComponent\<close> returns and the run sends exactly one request, to
  \<^verbatim>\<open>/api/scrape?topic=\<close> followed by the encoded query.  On a non-blank query with an
  unpaired surrogate \<^verbatim>\<open>encodeURIComponent\<close> raises URIError: the run sends no request
  and ends with \<open>error\<close> set to the message of the URIError and \<open>data\<close> null.
\<close>

theorem request_of_encoded_query:
  assumes "truthy (trim q)"
  shows "(isWellFormed q \<longrightarrow>
            (\<exists>topic. encodeURIComponent q = Inr topic \<and>
               requests (complete_run m q net body) = [lit ''/api/scrape?topic='' @ topic])) \<and>
         (\<not> isWellFormed q \<longrightarrow>
            encodeURIComponent q = Inl URIError \<and>
            requests (complete_run m q net body) = [] \<and>
            error (final_view v m q net body) = Some m \<and>
            data (final_view v m q net body) = None)"
proof (rule conjI; rule impI)
  assume "isWellFormed q"
  then obtain t where t: "encodeURIComponent q = Inr t"
    using encode_wellformed by blast
  then show "\<exists>topic. encodeURIComponent q = Inr topic \<and>
               requests (complete_run m q net body) = [lit ''/api/scrape?topic='' @ topic]"
    by (simp add: complete_run_eq[OF assms] catch_block_def finally_block_def
        split: sum.splits)
next
  assume "\<not> isWellFormed q"
  then have e: "encodeURIComponent q = Inl URIError"
    by (rule encode_illformed)
  have c: "complete_run m q net body =
     [SetIsLoading True, SetData None, SetError None,
      SetLoadingPhase (lit ''Searching social platforms...''), SetTimeout 1500,
      SetLoadingPhase (lit ''Scraping and parsing results...''), SetTimeout 2000,
      SetLoadingPhase (lit ''Analyzing sentiment and synthesizing data...''),
      SetError (Some m), SetIsLoading False, SetLoadingPhase []]"
    unfolding complete_run_eq[OF assms] e
    by (simp add: catch_block_def finally_block_def caught_message_ErrorObj lit_def[of "[]"])
  show "encodeURIComponent q = Inl URIError \<and>
        requests (complete_run m q net body) = [] \<and>
        error (final_view v m q net body) = Some m \<and>
        data (final_view v m q net body) = None"
    using e by (simp add: final_view_def c exec_simps)
qed

theorem request_of_encoded_query_witness:
  "truthy (trim [0x61, 0x20, 0xE9]) \<and> isWellFormed [0x61, 0x20, 0xE9] \<and>
   requests (complete_run uri_malformed [0x61, 0x20, 0xE9] (Inr \<lparr>status = 200\<rparr>)
      (Inr (Some example_result))) = [lit ''/api/scrape?topic='' @ lit ''a%20%C3%A9''] \<and>
   truthy (trim [0x61, 0xD800]) \<and> \<not> isWellFormed [0x61, 0xD800] \<and>
   requests (complete_run uri_malformed [0x61, 0xD800] (Inr \<lparr>status = 200\<rparr>)
      (Inr (Some example_result))) = [] \<and>
   error (final_view initial_view uri_malformed [0x61, 0xD800] (Inr \<lparr>status = 200\<rparr>)
      (Inr (Some example_result))) = Some uri_malformed"
proof -
  have "\<exists>topic. encodeURIComponent [0x61, 0x20, 0xE9] = Inr topic \<and>
          requests (complete_run uri_malformed [0x61, 0x20, 0xE9] (Inr \<lparr>status = 200\<rparr>)
            (Inr (Some example_result))) = [lit ''/api/scrape?topic='' @ topic]"
    using request_of_encoded_query[OF truthy_escaped, of uri_malformed
        "Inr \<lparr>status = 200\<rparr>" "Inr (Some example_result)" initial_view]
      wellformed_escaped
    by (simp only: simp_thms)
  then have one: "requests (complete_run uri_malformed [0x61, 0x20, 0xE9] (Inr \<lparr>status = 200\<rparr>)
      (Inr (Some example_result))) = [lit ''/api/scrape?topic='' @ lit ''a%20%C3%A9'']"
    unfolding encode_escaped by (elim exE conjE) (simp only: sum.inject)
  have none: "encodeURIComponent [0x61, 0xD800] = Inl URIError \<and>
      requests (complete_run uri_malformed [0x61, 0xD800] (Inr \<lparr>status = 200\<rparr>)
        (Inr (Some example_result))) = [] \<and>
      error (final_view initial_view uri_malformed [0x61, 0xD800] (Inr \<lparr>status = 200\<rparr>)
        (Inr (Some example_result))) = Some uri_malformed \<and>
      data (final_view initial_view uri_malformed [0x61, 0xD800] (Inr \<lparr>status = 200\<rparr>)
        (Inr (Some example_result))) = None"
    using request_of_encoded_query[OF truthy_lone, of uri_malformed
        "Inr \<lparr>status = 200\<rparr>" "Inr (Some example_result)" initial_view]
      illformed_lone
    by (simp only: simp_thms)
  from truthy_escaped wellformed_escaped one truthy_lone illformed_lone none
  show ?thesis by (intro conjI) (simp_all only: simp_thms)
qed

text \<open>Against C6 as stated: a query that ends in an unpaired surrogate is not blank, yet
  the run sends no request; the URIError of \<^verbatim>\<open>encodeURIComponent\<close> goes to the
  \<^verbatim>\<open>catch\<close> clause.\<close>

theorem lone_surrogate_sends_no_request:
  "truthy (trim [0x61, 0xD800]) \<and>
   requests (complete_run uri_malformed [0x61, 0xD800] (Inr \<lparr>status = 200\<rparr>)
      (Inr (Some example_result))) = [] \<and>
   error (final_view initial_view uri_malformed [0x61, 0xD800] (Inr \<lparr>status = 200\<rparr>)
            (Inr (Some example_result))) = Some uri_malformed"
proof -
  have c: "complete_run uri_malformed [0x61, 0xD800] (Inr \<lparr>status = 200\<rparr>)
      (Inr (Some example_result)) =
     [SetIsLoading True, SetData None, SetError None,
      SetLoadingPhase (lit ''Searching social platforms...''), SetTimeout 1500,
      SetLoadingPhase (lit ''Scraping and parsing results...''), SetTimeout 2000,
      SetLoadingPhase (lit ''Analyzing sentiment and synthesizing data...''),
      SetError (Some uri_malformed), SetIsLoading False, SetLoadingPhase []]"
    unfolding complete_run_eq[OF truthy_lone] encode_lone
    by (simp add: catch_block_def finally_block_def caught_message_ErrorObj lit_def[of "[]"])
  show ?thesis
    using truthy_lone by (simp add: final_view_def c exec_simps)
qed

text \<open>
  The stretch of code that ends a run, from whatever view it starts (other runs may have
  changed the view in between): it leaves \<open>isLoading\<close> false and \<open>loadingPhase\<close> empty.
\<close>

lemma ending_stretch_settles:
  assumes "resume m q a st = Some (as, None)"
  shows "\<not> isLoading (exec v as) \<and> loadingPhase (exec v as) = []"
  using assms
  by (induction m q a st rule: resume.induct)
     (auto simp: exec_simps catch_block_def finally_block_def lit_def[of "[]"]
           split: sum.splits if_splits uri_error.splits)

text \<open>
  C7, as amended.  A run on a non-blank query whose awaited promises all settle returns,
  and it ends with \<open>isLoading\<close> false and \<open>loadingPhase\<close> empty.  When the query was
  encoded, the response was ok and the body was parsed, \<open>error\<close> is null and \<open>data\<close> is
  the parsed value as it is, which is null when the body is \<^verbatim>\<open>null\<close>; in every other
  case \<open>data\<close> is null and \<open>error\<close> holds a message.
\<close>

theorem run_ends_settled:
  assumes "truthy (trim q)"
  shows "snd (run m q (settlements net body)) = None \<and>
         \<not> isLoading (final_view v m q net body) \<and>
         loadingPhase (final_view v m q net body) = [] \<and>
         (if \<exists>topic r result.
               encodeURIComponent q = Inr topic \<and> net = Inr r \<and> ok r \<and> body = Inr result
          then \<exists>result. body = Inr result \<and>
                 data (final_view v m q net body) = result \<and>
                 error (final_view v m q net body) = None
          else data (final_view v m q net body) = None \<and>
               (\<exists>message. error (final_view v m q net body) = Some message))"
proof -
  have "snd (run m q (settlements net body)) = None"
    by (simp add: run_complete[OF assms])
  moreover have "\<not> isLoading (final_view v m q net body)"
    by (simp add: final_view_def complete_run_eq[OF assms] exec_simps exec_append
          catch_block_def finally_block_def split: sum.splits)
  moreover have "loadingPhase (final_view v m q net body) = []"
    by (simp add: final_view_def complete_run_eq[OF assms] exec_simps exec_append
          catch_block_def finally_block_def lit_def[of "[]"] split: sum.splits)
  moreover have "if \<exists>topic r result.
               encodeURIComponent q = Inr topic \<and> net = Inr r \<and> ok r \<and> body = Inr result
          then \<exists>result. body = Inr result \<and>
                 data (final_view v m q net body) = result \<and>
                 error (final_view v m q net body) = None
          else data (final_view v m q net body) = None \<and>
               (\<exists>message. error (final_view v m q net body) = Some message)"
    by (auto simp add: final_view_def complete_run_eq[OF assms] exec_simps
          catch_block_def finally_block_def split: sum.splits)
  ultimately show ?thesis by blast
qed

theorem run_ends_settled_witness:
  "truthy (trim (lit ''ada'')) \<and>
   snd (run uri_malformed (lit ''ada'')
          (settlements (Inr \<lparr>status = 200\<rparr>) (Inr (Some example_result)))) = None \<and>
   \<not> isLoading (final_view initial_view uri_malformed (lit ''ada'') (Inr \<lparr>status = 200\<rparr>)
        (Inr (Some example_result))) \<and>
   loadingPhase (final_view initial_view uri_malformed (lit ''ada'') (Inr \<lparr>status = 200\<rparr>)
        (Inr (Some example_result))) = [] \<and>
   data (final_view initial_view uri_malformed (lit ''ada'') (Inr \<lparr>status = 200\<rparr>)
        (Inr (Some example_result))) = Some example_result \<and>
   error (final_view initial_view uri_malformed (lit ''ada'') (Inr \<lparr>status = 200\<rparr>)
        (Inr (Some example_result))) = None \<and>
   \<not> isLoading (final_view initial_view uri_malformed (lit ''ada'') (Inr \<lparr>status = 404\<rparr>)
        (Inr (Some example_result))) \<and>
   loadingPhase (final_view initial_view uri_malformed (lit ''ada'') (Inr \<lparr>status = 404\<rparr>)
        (Inr (Some example_result))) = [] \<and>
   data (final_view initial_view uri_malformed (lit ''ada'') (Inr \<lparr>status = 404\<rparr>)
        (Inr (Some example_result))) = None \<and>
   (\<exists>message. error (final_view initial_view uri_malformed (lit ''ada'')
        (Inr \<lparr>status = 404\<rparr>) (Inr (Some example_result))) = Some message)"
  using run_ends_settled[OF truthy_ada, of uri_malformed "Inr \<lparr>status = 200\<rparr>"
      "Inr (Some example_result)" initial_view]
    run_ends_settled[OF truthy_ada, of uri_malformed "Inr \<lparr>status = 404\<rparr>"
      "Inr (Some example_result)" initial_view]
    truthy_ada
  by (simp add: encode_ada ok_200 not_ok_404)

text \<open>Against C7 as stated: a response with status 200 whose body is \<^verbatim>\<open>null\<close> is a
  success, and the run ends with \<open>data\<close> and \<open>error\<close> both null.\<close>

theorem null_body_sets_neither:
  "data (final_view initial_view uri_malformed (lit ''ada'') (Inr \<lparr>status = 200\<rparr>) (Inr None))
     = None \<and>
   error (final_view initial_view uri_malformed (lit ''ada'') (Inr \<lparr>status = 200\<rparr>) (Inr None))
     = None \<and>
   requests (complete_run uri_malformed (lit ''ada'') (Inr \<lparr>status = 200\<rparr>) (Inr None))
     = [lit ''/api/scrape?topic='' @ lit ''ada'']"
  by (simp add: final_view_def complete_run_eq[OF truthy_ada] encode_ada ok_200 exec_simps
        finally_block_def)

subsection \<open>Overlapping runs\<close>

lemma typed_and_submitted_eq:
  "typed_and_submitted =
     \<lparr>ui = \<lparr>searchQuery = lit ''ada'', isLoading = True, data = None, error = None,
             loadingPhase = lit ''Searching social platforms...''\<rparr>,
      runs = [(lit ''ada'', Some AwaitTimer1)],
      trace = [SetIsLoading True, SetData None, SetError None,
               SetLoadingPhase (lit ''Searching social platforms...''), SetTimeout 1500]\<rparr>"
  by (simp add: typed_and_submitted_def enter_def initial_sys_def initial_view_def invoke_def
        handleSearch_truthy[OF truthy_ada] exec_simps)

text \<open>The button is guarded by \<open>isLoading\<close>; the Enter key is not.\<close>

lemma click_blocked_while_loading: "isLoading (ui s) \<Longrightarrow> step m s Click = s"
  by (simp add: submit_disabled_def)

lemma enter_always_invokes:
  assumes "truthy (trim (searchQuery (ui s)))"
  shows "length (in_flight (step m s enter)) = Suc (length (in_flight s))"
  by (simp add: enter_def invoke_def handleSearch_truthy[OF assms] in_flight_def)

text \<open>
  C9, at a failing input.  After the user has typed \<^verbatim>\<open>ada\<close> and pressed Enter, the page
  is loading and one run is in flight.  A click on the button is not delivered, but a
  second Enter calls \<open>handleSearch\<close> again: two runs are in flight, and when their timers
  have fired, in the order of their deadlines, two requests have been sent.
\<close>

theorem enter_starts_second_run_while_loading:
  "isLoading (ui typed_and_submitted) \<and>
   length (in_flight typed_and_submitted) = 1 \<and>
   step uri_malformed typed_and_submitted Click = typed_and_submitted \<and>
   length (in_flight (step uri_malformed typed_and_submitted enter)) = 2 \<and>
   requests (trace (foldl (step uri_malformed) typed_and_submitted
      [enter, Settle 0 TimerFired, Settle 1 TimerFired, Settle 0 TimerFired,
       Settle 1 TimerFired]))
     = [lit ''/api/scrape?topic=ada'', lit ''/api/scrape?topic=ada'']"
  by (simp add: typed_and_submitted_eq enter_def in_flight_def submit_disabled_def invoke_def
        handleSearch_truthy[OF truthy_ada] exec_simps encode_ada)
     (simp add: lit_def)

text \<open>
  C4, at a failing input.  Enter is pressed twice; the request of the first run is
  rejected and the request of the second run succeeds.  The page ends with \<open>data\<close> and
  \<open>error\<close> both set.
\<close>

theorem overlapping_runs_set_data_and_error:
  "data (ui (foldl (step uri_malformed) initial_sys overlapping_runs)) = Some example_result \<and>
   error (ui (foldl (step uri_malformed) initial_sys overlapping_runs)) =
     Some (lit ''Failed to fetch'')"
  by (simp add: overlapping_runs_def enter_def initial_sys_def initial_view_def invoke_def
        handleSearch_truthy[OF truthy_ada] exec_simps encode_ada ok_200 catch_block_def
        finally_block_def caught_message_ErrorObj)

subsection \<open>Rendering\<close>

lemma slice_1_10:
  "slice 1 10 xs = map ((!) xs) [1..<min 10 (length xs)] \<and>
   length (slice 1 10 xs) \<le> 9 \<and>
   (length xs = 1 \<longrightarrow> slice 1 10 xs = [])"
proof (cases xs)
  case Nil
  then show ?thesis by (simp add: slice_def)
next
  case (Cons x ys)
  then have m: "min 1 (length xs) = 1" by simp
  have "slice 1 10 xs = map ((!) xs) [1..<min 10 (length xs)]"
    using slice_nth[of 1 10 xs] by (simp only: m)
  moreover have "length (slice 1 10 xs) \<le> 9"
    by (simp add: slice_def Let_def)
  moreover have "length xs = 1 \<longrightarrow> slice 1 10 xs = []"
    by (simp add: slice_def Let_def)
  ultimately show ?thesis by blast
qed

lemma sentimentData_counts:
  "map count (sentimentData (Some d)) =
     [length (positive (mentions d)), length (neutral (mentions d)),
      length (negative (mentions d))]"
  "map sentiment.name (sentimentData (Some d)) =
     [lit ''Positive'', lit ''Neutral'', lit ''Negative'']"
  by (simp_all add: sentimentData_def)

lemma render_results_Inr:
  assumes "render_results parse d = Inr out"
  shows "positive_mentions out = length (positive (mentions d))"
    and "neutral_mentions out = length (neutral (mentions d))"
    and "negative_mentions out = length (negative (mentions d))"
    and "chart out = sentimentData (Some d)"
    and "sources_analyzed out = length (articles d)"
    and "article_cards parse 0 (articles d) = Inr (cards out)"
    and "positive_quotes out = slice 1 10 (positive (mentions d))"
    and "neutral_quotes out = slice 1 10 (neutral (mentions d))"
    and "negative_quotes out = slice 1 10 (negative (mentions d))"
proof -
  from assms obtain cs where cs: "article_cards parse 0 (articles d) = Inr cs"
    by (cases "article_cards parse 0 (articles d)") (simp_all add: render_results_def)
  from assms have out: "out =
    \<lparr>subject = api_response.name d,
     sources_analyzed = length (articles d),
     positive_mentions = length (positive (mentions d)),
     neutral_mentions = length (neutral (mentions d)),
     negative_mentions = length (negative (mentions d)),
     chart = sentimentData (Some d),
     cards = cs,
     positive_quotes = slice 1 10 (positive (mentions d)),
     neutral_quotes = slice 1 10 (neutral (mentions d)),
     negative_quotes = slice 1 10 (negative (mentions d))\<rparr>"
    by (simp add: render_results_def cs)
  show "positive_mentions out = length (positive (mentions d))" by (simp add: out)
  show "neutral_mentions out = length (neutral (mentions d))" by (simp add: out)
  show "negative_mentions out = length (negative (mentions d))" by (simp add: out)
  show "chart out = sentimentData (Some d)" by (simp add: out)
  show "sources_analyzed out = length (articles d)" by (simp add: out)
  show "article_cards parse 0 (articles d) = Inr (cards out)" by (simp add: out cs)
  show "positive_quotes out = slice 1 10 (positive (mentions d))" by (simp add: out)
  show "neutral_quotes out = slice 1 10 (neutral (mentions d))" by (simp add: out)
  show "negative_quotes out = slice 1 10 (negative (mentions d))" by (simp add: out)
qed

lemma App_results:
  assumes "App parse v = Inr pg" and "data v = Some d"
  shows "\<exists>out. render_results parse d = Inr out \<and> results pg = Some out"
proof (cases "render_results parse d")
  case (Inl e)
  with assms show ?thesis by (simp add: App_def)
next
  case (Inr out)
  with assms have "results pg = Some out" by (auto simp add: App_def)
  with Inr show ?thesis by simp
qed

lemma App_no_articles:
  assumes "data v = Some d" and "articles d = []"
  shows "\<exists>pg out. App parse v = Inr pg \<and> render_results parse d = Inr out \<and>
           results pg = Some out \<and> cards out = []"
  using assms by (simp add: App_def render_results_def)

lemma render_example:
  "\<exists>out. render_results example_parse example_result = Inr out"
  by (simp add: render_results_def example_result_def example_parse_def)

lemma App_example:
  "\<exists>pg. App example_parse (initial_view\<lparr>data := Some example_result\<rparr>) = Inr pg"
  using render_example by (auto simp add: App_def)

text \<open>
  C8.  When a page with a result renders, the three summary numbers and the counts of
  the three chart bars (Positive, Neutral, Negative, in that order) are the lengths of
  \<open>mentions.positive\<close>, \<open>mentions.neutral\<close> and \<open>mentions.negative\<close>.  A result with
  no articles and no mentions always renders, with zero counts and an empty list of
  article cards.
\<close>

theorem rendered_counts_are_lengths:
  "(App parse v = Inr pg \<and> data v = Some d \<longrightarrow>
      (\<exists>out. results pg = Some out \<and>
         positive_mentions out = length (positive (mentions d)) \<and>
         neutral_mentions out = length (neutral (mentions d)) \<and>
         negative_mentions out = length (negative (mentions d)) \<and>
         map sentiment.name (chart out) = [lit ''Positive'', lit ''Neutral'', lit ''Negative''] \<and>
         map count (chart out) =
           [length (positive (mentions d)), length (neutral (mentions d)),
            length (negative (mentions d))])) \<and>
   (data v = Some d \<and> articles d = [] \<and> positive (mentions d) = [] \<and>
    neutral (mentions d) = [] \<and> negative (mentions d) = [] \<longrightarrow>
      (\<exists>pg out. App parse v = Inr pg \<and> results pg = Some out \<and>
         positive_mentions out = 0 \<and> neutral_mentions out = 0 \<and> negative_mentions out = 0 \<and>
         map count (chart out) = [0, 0, 0] \<and> sources_analyzed out = 0 \<and> cards out = []))"
proof (intro conjI impI)
  assume "App parse v = Inr pg \<and> data v = Some d"
  then obtain out where r: "render_results parse d = Inr out" and pg: "results pg = Some out"
    using App_results by blast
  show "\<exists>out. results pg = Some out \<and>
         positive_mentions out = length (positive (mentions d)) \<and>
         neutral_mentions out = length (neutral (mentions d)) \<and>
         negative_mentions out = length (negative (mentions d)) \<and>
         map sentiment.name (chart out) = [lit ''Positive'', lit ''Neutral'', lit ''Negative''] \<and>
         map count (chart out) =
           [length (positive (mentions d)), length (neutral (mentions d)),
            length (negative (mentions d))]"
    using pg by (simp add: render_results_Inr[OF r] sentimentData_counts)
next
  assume a: "data v = Some d \<and> articles d = [] \<and> positive (mentions d) = [] \<and>
    neutral (mentions d) = [] \<and> negative (mentions d) = []"
  then obtain pg out where pg: "App parse v = Inr pg" "results pg = Some out" "cards out = []"
    and r: "render_results parse d = Inr out"
    using App_no_articles[of v d parse] by blast
  have z: "positive_mentions out = 0 \<and> neutral_mentions out = 0 \<and> negative_mentions out = 0 \<and>
         map count (chart out) = [0, 0, 0] \<and> sources_analyzed out = 0"
    using a by (simp add: render_results_Inr[OF r] sentimentData_counts)
  show "\<exists>pg out. App parse v = Inr pg \<and> results pg = Some out \<and>
         positive_mentions out = 0 \<and> neutral_mentions out = 0 \<and> negative_mentions out = 0 \<and>
         map count (chart out) = [0, 0, 0] \<and> sources_analyzed out = 0 \<and> cards out = []"
    using pg z by (intro exI[of _ pg] exI[of _ out]) simp
qed

theorem rendered_counts_are_lengths_witness:
  "data (initial_view\<lparr>data := Some example_result\<rparr>) = Some example_result \<and>
   (\<exists>pg out. App example_parse (initial_view\<lparr>data := Some example_result\<rparr>) = Inr pg \<and>
      results pg = Some out \<and> positive_mentions out = 2 \<and> neutral_mentions out = 1 \<and>
      negative_mentions out = 0 \<and> map count (chart out) = [2, 1, 0]) \<and>
   (\<exists>pg out. App example_parse (initial_view\<lparr>data := Some empty_result\<rparr>) = Inr pg \<and>
      results pg = Some out \<and> positive_mentions out = 0 \<and> neutral_mentions out = 0 \<and>
      negative_mentions out = 0 \<and> map count (chart out) = [0, 0, 0] \<and> cards out = [])"
proof -
  obtain pg where pg: "App example_parse (initial_view\<lparr>data := Some example_result\<rparr>) = Inr pg"
    using App_example by (elim exE)
  have d: "data (initial_view\<lparr>data := Some example_result\<rparr>) = Some example_result"
    by simp
  have len: "length (positive (mentions example_result)) = 2"
    "length (neutral (mentions example_result)) = 1"
    "length (negative (mentions example_result)) = 0"
    by (simp_all add: example_result_def)
  have "\<exists>out. results pg = Some out \<and>
         positive_mentions out = length (positive (mentions example_result)) \<and>
         neutral_mentions out = length (neutral (mentions example_result)) \<and>
         negative_mentions out = length (negative (mentions example_result)) \<and>
         map sentiment.name (chart out) = [lit ''Positive'', lit ''Neutral'', lit ''Negative''] \<and>
         map count (chart out) =
           [length (positive (mentions example_result)), length (neutral (mentions example_result)),
            length (negative (mentions example_result))]"
    using rendered_counts_are_lengths[of example_parse
      "initial_view\<lparr>data := Some example_result\<rparr>" pg example_result] pg d
    by (simp only: simp_thms)
  then obtain out where out: "results pg = Some out" "positive_mentions out = 2"
      "neutral_mentions out = 1" "negative_mentions out = 0"
      "map count (chart out) = [2, 1, 0]"
    unfolding len by (elim exE conjE)
  have first: "\<exists>pg out. App example_parse (initial_view\<lparr>data := Some example_result\<rparr>) = Inr pg \<and>
      results pg = Some out \<and> positive_mentions out = 2 \<and> neutral_mentions out = 1 \<and>
      negative_mentions out = 0 \<and> map count (chart out) = [2, 1, 0]"
    using pg out by (intro exI[of _ pg] exI[of _ out] conjI)
  have e: "data (initial_view\<lparr>data := Some empty_result\<rparr>) = Some empty_result \<and>
     articles empty_result = [] \<and> positive (mentions empty_result) = [] \<and>
     neutral (mentions empty_result) = [] \<and> negative (mentions empty_result) = []"
    by (simp add: empty_result_def)
  have "\<exists>pg out. App example_parse (initial_view\<lparr>data := Some empty_result\<rparr>) = Inr pg \<and>
         results pg = Some out \<and>
         positive_mentions out = 0 \<and> neutral_mentions out = 0 \<and> negative_mentions out = 0 \<and>
         map count (chart out) = [0, 0, 0] \<and> sources_analyzed out = 0 \<and> cards out = []"
    using rendered_counts_are_lengths[of example_parse
      "initial_view\<lparr>data := Some empty_result\<rparr>" pg empty_result] e
    by (simp only: simp_thms)
  then obtain pg0 out0 where o: "App example_parse (initial_view\<lparr>data := Some empty_result\<rparr>) = Inr pg0"
      "results pg0 = Some out0" "positive_mentions out0 = 0" "neutral_mentions out0 = 0"
      "negative_mentions out0 = 0" "map count (chart out0) = [0, 0, 0]" "cards out0 = []"
    by (elim exE conjE)
  have second: "\<exists>pg out. App example_parse (initial_view\<lparr>data := Some empty_result\<rparr>) = Inr pg \<and>
      results pg = Some out \<and> positive_mentions out = 0 \<and> neutral_mentions out = 0 \<and>
      negative_mentions out = 0 \<and> map count (chart out) = [0, 0, 0] \<and> cards out = []"
    using o by (intro exI[of _ pg0] exI[of _ out0] conjI)
  from d first second show ?thesis by (intro conjI)
qed

text \<open>
  C10.  The quotes shown under each category are those at the indices 1 to 9 of its
  array (\<^verbatim>\<open>slice(1, 10)\<close>): the quote at index 0 is left out, at most nine are shown,
  and a category with exactly one mention shows no quote while its count shows 1.
\<close>

theorem quotes_are_slice_1_10:
  assumes "render_results parse d = Inr out"
  shows "positive_quotes out =
           map ((!) (positive (mentions d))) [1..<min 10 (length (positive (mentions d)))] \<and>
         neutral_quotes out =
           map ((!) (neutral (mentions d))) [1..<min 10 (length (neutral (mentions d)))] \<and>
         negative_quotes out =
           map ((!) (negative (mentions d))) [1..<min 10 (length (negative (mentions d)))] \<and>
         length (positive_quotes out) \<le> 9 \<and> length (neutral_quotes out) \<le> 9 \<and>
         length (negative_quotes out) \<le> 9 \<and>
         (length (positive (mentions d)) = 1 \<longrightarrow>
            positive_quotes out = [] \<and> positive_mentions out = 1) \<and>
         (length (neutral (mentions d)) = 1 \<longrightarrow>
            neutral_quotes out = [] \<and> neutral_mentions out = 1) \<and>
         (length (negative (mentions d)) = 1 \<longrightarrow>
            negative_quotes out = [] \<and> negative_mentions out = 1)"
proof -
  note r = render_results_Inr[OF assms]
  have p: "positive_quotes out =
             map ((!) (positive (mentions d))) [1..<min 10 (length (positive (mentions d)))]"
    "length (positive_quotes out) \<le> 9"
    "length (positive (mentions d)) = 1 \<longrightarrow> positive_quotes out = [] \<and> positive_mentions out = 1"
    unfolding r using slice_1_10[of "positive (mentions d)"] by blast+
  have n: "neutral_quotes out =
             map ((!) (neutral (mentions d))) [1..<min 10 (length (neutral (mentions d)))]"
    "length (neutral_quotes out) \<le> 9"
    "length (neutral (mentions d)) = 1 \<longrightarrow> neutral_quotes out = [] \<and> neutral_mentions out = 1"
    unfolding r using slice_1_10[of "neutral (mentions d)"] by blast+
  have g: "negative_quotes out =
             map ((!) (negative (mentions d))) [1..<min 10 (length (negative (mentions d)))]"
    "length (negative_quotes out) \<le> 9"
    "length (negative (mentions d)) = 1 \<longrightarrow> negative_quotes out = [] \<and> negative_mentions out = 1"
    unfolding r using slice_1_10[of "negative (mentions d)"] by blast+
  from p n g show ?thesis by (intro conjI)
qed

theorem quotes_are_slice_1_10_witness:
  "\<exists>out. render_results example_parse example_result = Inr out \<and>
     positive_mentions out = 2 \<and> positive_quotes out = [lit ''brilliant''] \<and>
     neutral_mentions out = 1 \<and> neutral_quotes out = [] \<and>
     negative_quotes out = []"
proof -
  obtain out where out: "render_results example_parse example_result = Inr out"
    using render_example by blast
  have m: "positive (mentions example_result) = [lit ''great'', lit ''brilliant'']"
    "neutral (mentions example_result) = [lit ''fine'']"
    "negative (mentions example_result) = []"
    by (simp_all add: example_result_def)
  have u: "[1..<2] = [1::nat]"
    by (simp add: upt_rec)
  from quotes_are_slice_1_10[OF out] render_results_Inr(1)[OF out]
  have "positive_mentions out = 2 \<and> positive_quotes out = [lit ''brilliant''] \<and>
     neutral_mentions out = 1 \<and> neutral_quotes out = [] \<and>
     negative_quotes out = []"
    unfolding m by (simp add: u)
  with out show ?thesis by blast
qed

end
